theory Spec2Isabelle
  imports Complex_Main "HOL-Library.Sublist"
begin

section \<open>The QA pipeline runner and validator\<close>

text \<open>
  A shallow embedding of the two scripts of the repository that have control flow of
  their own: \<^verbatim>\<open>qa_tests/run_qa_pipeline.py\<close> (the runner) and
  \<^verbatim>\<open>qa_tests/final_qa_validation.py\<close> (the validator). Python integers are
  \<open>int\<close>, Python strings are \<open>string\<close> with a character read as a code point below
  256 (Latin-1; text with other code points is outside the model), every exception the
  code can meet is a value of \<open>py_error\<close>, and a computation that may raise returns
  \<open>py_error + 'a\<close> with \<open>Inl\<close> for the exception.
\<close>

datatype py_error =
    IndexError
  | ValueError
  | ZeroDivisionError
  | OverflowError
  | OSError
  | FileNotFoundError
  | FileExistsError
  | NotADirectoryError
  | CalledProcessError
  | AttributeError
  | IsADirectoryError

subsection \<open>\<open>find_available_port\<close> (run\_qa\_pipeline.py, lines 16--26)\<close>

text \<open>
  The network is a parameter: whether the name \<open>localhost\<close> resolves and which ports
  can be bound. \<open>bind\<close> follows CPython's socket module for an \<open>AF_INET\<close> address
  \<open>(host, port)\<close>: the host is resolved first (a failure is \<open>socket.gaierror\<close>, an
  \<open>OSError\<close>), then a port outside \<open>0..65535\<close> raises \<open>OverflowError\<close>
  ("bind(): port must be 0-65535."), then the system call succeeds or fails with
  \<open>OSError\<close>.
\<close>

record network =
  localhost_resolves :: bool
  port_free :: "int \<Rightarrow> bool"

definition bind :: "network \<Rightarrow> int \<Rightarrow> py_error + unit" where
  "bind net port =
     (if \<not> localhost_resolves net then Inl OSError
      else if port < 0 \<or> 65535 < port then Inl OverflowError
      else if port_free net port then Inr ()
      else Inl OSError)"

text \<open>
  The \<open>for\<close> loop over \<open>range(start_port, start_port + 100)\<close>: \<open>OSError\<close> is caught
  and the loop continues, any other exception leaves the function, and the
  statement after the loop returns \<open>start_port\<close>.
\<close>

fun try_ports :: "network \<Rightarrow> int \<Rightarrow> int list \<Rightarrow> py_error + int" where
  "try_ports net start_port [] = Inr start_port"
| "try_ports net start_port (port # ports) =
     (case bind net port of
        Inr _ \<Rightarrow> Inr port
      | Inl OSError \<Rightarrow> try_ports net start_port ports
      | Inl e \<Rightarrow> Inl e)"

definition find_available_port :: "network \<Rightarrow> int \<Rightarrow> py_error + int" where
  "find_available_port net start_port =
     try_ports net start_port [start_port .. start_port + 99]"

text \<open>A network where \<open>localhost\<close> resolves and no port can be bound.\<close>

definition all_ports_taken :: network where
  "all_ports_taken = \<lparr>localhost_resolves = True, port_free = (\<lambda>_. False)\<rparr>"

subsection \<open>The trend widgets of the current run (run\_qa\_pipeline.py, lines 307--317)\<close>

record categories =
  product_defects :: int
  test_defects :: int
  environment_issues :: int
  automation_issues :: int

definition categories_current :: "int \<Rightarrow> categories" where
  "categories_current failed =
     \<lparr> product_defects = max (failed - 1) 0,
       test_defects = (if failed > 0 then 1 else 0),
       environment_issues = 0,
       automation_issues = 0 \<rparr>"

subsection \<open>\<open>run_pytest_command\<close> (final\_qa\_validation.py, lines 44--61)\<close>

text \<open>
  What \<open>subprocess.run(cmd, capture_output=True, text=True, timeout=300)\<close> does is a
  parameter: it returns a completed process, raises \<open>TimeoutExpired\<close> (which carries
  the output captured so far), or raises another exception, of which the code reads
  only \<open>str(e)\<close>.
\<close>

datatype run_outcome =
    Completed int string string
  | TimeoutExpired string string
  | Raised string

definition run_pytest_command :: "run_outcome \<Rightarrow> bool \<times> string \<times> string" where
  "run_pytest_command outcome =
     (case outcome of
        Completed returncode stdout stderr \<Rightarrow> (returncode = 0, stdout, stderr)
      | TimeoutExpired partial_out partial_err \<Rightarrow> (False, '''', ''Command timed out'')
      | Raised msg \<Rightarrow> (False, '''', msg))"

subsection \<open>Python string operations\<close>

text \<open>
  \<open>is_space\<close> is \<open>str.isspace\<close> on the code points below 256: tab, line feed,
  vertical tab, form feed, carriage return, the separators 28 to 31, space, next line
  (133) and no-break space (160). \<open>py_split\<close> is \<open>str.split()\<close> (runs of
  whitespace separate the tokens, none is empty); \<open>py_split_sep\<close> is \<open>str.split(sep)\<close>
  for a one-character separator; \<open>py_in sub s\<close> is \<open>sub in s\<close>.
\<close>

definition is_space :: "char \<Rightarrow> bool" where
  "is_space c = (of_char c \<in> {9, 10, 11, 12, 13, 28, 29, 30, 31, 32, 133, 160 :: nat})"

fun split_ws :: "string \<Rightarrow> string \<Rightarrow> string list" where
  "split_ws tok [] = (if tok = [] then [] else [tok])"
| "split_ws tok (c # cs) =
     (if is_space c then (if tok = [] then split_ws [] cs else tok # split_ws [] cs)
      else split_ws (tok @ [c]) cs)"

definition py_split :: "string \<Rightarrow> string list" where
  "py_split s = split_ws [] s"

fun split_on :: "char \<Rightarrow> string \<Rightarrow> string \<Rightarrow> string list" where
  "split_on sep cur [] = [cur]"
| "split_on sep cur (c # cs) =
     (if c = sep then cur # split_on sep [] cs else split_on sep (cur @ [c]) cs)"

definition py_split_sep :: "char \<Rightarrow> string \<Rightarrow> string list" where
  "py_split_sep sep s = split_on sep [] s"

fun py_in :: "string \<Rightarrow> string \<Rightarrow> bool" where
  "py_in sub [] = (sub = [])"
| "py_in sub (c # cs) = (prefix sub (c # cs) \<or> py_in sub cs)"

text \<open>
  \<open>py_int\<close> is \<open>int(s)\<close> on a token without whitespace: an optional sign, then decimal
  digits, where single underscores may stand between digits; anything else raises
  \<open>ValueError\<close>, and so does a literal with more digits than the interpreter's limit
  for the conversion of strings (\<open>sys.get_int_max_str_digits()\<close>, 4300 unless it is
  configured; the sign and the underscores do not count). Below 256 the only decimal
  digits are \<open>0\<close> to \<open>9\<close>.
\<close>

definition int_max_str_digits :: nat where
  "int_max_str_digits = 4300"

definition is_digit :: "char \<Rightarrow> bool" where
  "is_digit c = (48 \<le> (of_char c :: nat) \<and> (of_char c :: nat) \<le> 57)"

definition digit_val :: "char \<Rightarrow> nat" where
  "digit_val c = of_char c - 48"

fun parse_digits :: "nat \<Rightarrow> bool \<Rightarrow> string \<Rightarrow> nat option" where
  "parse_digits acc prev [] = (if prev then Some acc else None)"
| "parse_digits acc prev (c # cs) =
     (if is_digit c then parse_digits (10 * acc + digit_val c) True cs
      else if c = CHR ''_'' \<and> prev then parse_digits acc False cs
      else None)"

definition digits_to_int :: "bool \<Rightarrow> string \<Rightarrow> py_error + int" where
  "digits_to_int negative body =
     (case parse_digits 0 False body of
        None \<Rightarrow> Inl ValueError
      | Some n \<Rightarrow>
          if int_max_str_digits < length (filter is_digit body) then Inl ValueError
          else Inr (if negative then - int n else int n))"

definition py_int :: "string \<Rightarrow> py_error + int" where
  "py_int s =
     (case s of
        c # cs \<Rightarrow>
          (if c = CHR ''-'' then digits_to_int True cs
           else if c = CHR ''+'' then digits_to_int False cs
           else digits_to_int False s)
      | [] \<Rightarrow> Inl ValueError)"

text \<open>The decimal numeral of a natural number, as the test framework prints a count.\<close>

definition digit_char :: "nat \<Rightarrow> char" where
  "digit_char d = ''0123456789'' ! d"

fun str_of_nat :: "nat \<Rightarrow> string" where
  "str_of_nat n = (if n < 10 then [digit_char n] else str_of_nat (n div 10) @ [digit_char (n mod 10)])"

declare str_of_nat.simps [simp del]

subsection \<open>Counting the collected tests (final\_qa\_validation.py, lines 84--108)\<close>

text \<open>
  \<open>parse_count\<close> is the body of the \<open>try\<close> (lines 91--97) on the first collected
  line; \<open>collected_count\<close> is the value stored in \<open>collection_results[test_type]\<close>
  for one test type, from the \<open>success\<close> flag and the standard output of the command:
  the handler of \<open>IndexError\<close> and \<open>ValueError\<close> stores 0, the branch without a
  collected line stores 0, and a failed command stores -1.
\<close>

definition parse_count :: "string \<Rightarrow> py_error + int" where
  "parse_count line =
     (case py_split line of
        [] \<Rightarrow> Inl IndexError
      | first # _ \<Rightarrow>
          if py_in ''/'' first then
            (case py_split_sep CHR ''/'' first of
               _ # second # _ \<Rightarrow> py_int second
             | _ \<Rightarrow> Inl IndexError)
          else py_int first)"

definition collected_count :: "bool \<Rightarrow> string \<Rightarrow> int" where
  "collected_count success stdout =
     (if success then
        (let lines = py_split_sep CHR 0x0A stdout;
             collected_line = filter (\<lambda>line. py_in ''collected'' line \<and> py_in ''test'' line) lines
         in case collected_line of
              [] \<Rightarrow> 0
            | line # _ \<Rightarrow> (case parse_count line of Inr count \<Rightarrow> count | Inl _ \<Rightarrow> 0))
      else - 1)"

text \<open>
  A count token in words, apart from the parser. The lines that matter are those
  that mention both "collected" and "test"; the count token of such a line is its first
  whitespace-separated token or, when that token contains a slash, the part between its
  first and its second slash; an integer literal is an optional sign followed by decimal
  digits, where a single underscore may stand between two digits. An output has no
  recognizable count token when no line mentions both words, or when the count token of
  the first line that does is not an integer literal.
\<close>

definition mentions_count :: "string \<Rightarrow> bool" where
  "mentions_count line = (py_in ''collected'' line \<and> py_in ''test'' line)"

definition first_token :: "string \<Rightarrow> string" where
  "first_token line = takeWhile (\<lambda>c. \<not> is_space c) (dropWhile is_space line)"

definition count_token :: "string \<Rightarrow> string" where
  "count_token tok =
     (if CHR ''/'' \<in> set tok
      then takeWhile (\<lambda>c. c \<noteq> CHR ''/'') (drop 1 (dropWhile (\<lambda>c. c \<noteq> CHR ''/'') tok))
      else tok)"

definition int_literal :: "string \<Rightarrow> bool" where
  "int_literal s =
     (let body = (if s \<noteq> [] \<and> (hd s = CHR ''-'' \<or> hd s = CHR ''+'') then tl s else s)
      in body \<noteq> []
         \<and> list_all (\<lambda>c. is_digit c \<or> c = CHR ''_'') body
         \<and> is_digit (hd body) \<and> is_digit (last body)
         \<and> \<not> py_in ''__'' body)"

definition no_count_token :: "string \<Rightarrow> bool" where
  "no_count_token stdout =
     (case filter mentions_count (py_split_sep CHR 0x0A stdout) of
        [] \<Rightarrow> True
      | line # _ \<Rightarrow> \<not> int_literal (count_token (first_token line)))"

subsection \<open>Aggregating the result files (run\_qa\_pipeline.py, lines 197--209)\<close>

text \<open>
  A value read by \<open>json.load\<close>. For each path that \<open>glob\<close> returns, the file
  cannot be opened (\<open>open\<close> raises: the file is missing or unreadable), or its text
  is not JSON (\<open>json.load\<close> raises), or it parses to a value.
\<close>

datatype json =
    JNull
  | JBool bool
  | JNumber int
  | JString string
  | JArray "json list"
  | JObject "(string \<times> json) list"

datatype result_file = Unreadable | Malformed | Parsed json

text \<open>\<open>data.get(key)\<close> on a dictionary read from JSON: the last of equal keys wins.\<close>

definition dict_get :: "(string \<times> json) list \<Rightarrow> string \<Rightarrow> json option" where
  "dict_get kvs key = map_of (rev kvs) key"

record run_summary =
  n_total :: int
  n_passed :: int
  n_failed :: int

text \<open>
  One iteration of the loop. \<open>total += 1\<close> runs as soon as the file has been parsed;
  \<open>data.get\<close> on a value that is not a dictionary raises \<open>AttributeError\<close> after that,
  and the bare \<open>except\<close> continues with the next file.
\<close>

fun count_result :: "run_summary \<Rightarrow> result_file \<Rightarrow> run_summary" where
  "count_result s Unreadable = s"
| "count_result s Malformed = s"
| "count_result s (Parsed (JObject kvs)) =
     (let s = s\<lparr>n_total := n_total s + 1\<rparr>
      in if dict_get kvs ''status'' = Some (JString ''passed'') then s\<lparr>n_passed := n_passed s + 1\<rparr>
         else if dict_get kvs ''status'' \<in> set [Some (JString ''failed''), Some (JString ''broken'')]
           then s\<lparr>n_failed := n_failed s + 1\<rparr>
         else s)"
| "count_result s (Parsed _) = s\<lparr>n_total := n_total s + 1\<rparr>"

definition aggregate :: "result_file list \<Rightarrow> run_summary" where
  "aggregate files = foldl count_result \<lparr>n_total = 0, n_passed = 0, n_failed = 0\<rparr> files"

text \<open>
  The words of the specification: a per-test result file holds one JSON object, so a
  result file is well formed when it can be read and parses to an object. \<open>parses\<close>
  is the weaker fact that \<open>json.load\<close> returned some value, and \<open>status_of\<close> is the
  \<open>status\<close> field of the object a file holds, if any.
\<close>

definition well_formed :: "result_file \<Rightarrow> bool" where
  "well_formed f = (case f of Parsed (JObject _) \<Rightarrow> True | _ \<Rightarrow> False)"

definition parses :: "result_file \<Rightarrow> bool" where
  "parses f = (case f of Parsed _ \<Rightarrow> True | _ \<Rightarrow> False)"

definition status_of :: "result_file \<Rightarrow> json option" where
  "status_of f = (case f of Parsed (JObject kvs) \<Rightarrow> dict_get kvs ''status'' | _ \<Rightarrow> None)"

definition has_status :: "string list \<Rightarrow> result_file \<Rightarrow> bool" where
  "has_status names f = (\<exists>name\<in>set names. status_of f = Some (JString name))"

definition other_status :: "result_file \<Rightarrow> bool" where
  "other_status f = (parses f \<and> \<not> has_status [''passed'', ''failed'', ''broken''] f)"

text \<open>
  A results directory with four well-formed result files, of status passed, failed,
  broken and skipped, a file that cannot be read, a file that is not JSON, and two files
  whose JSON is not an object.
\<close>

definition mixed_directory :: "result_file list" where
  "mixed_directory =
     [Parsed (JObject [(''name'', JString ''test_a''), (''status'', JString ''passed'')]),
      Parsed (JObject [(''name'', JString ''test_b''), (''status'', JString ''failed'')]),
      Unreadable,
      Parsed (JObject [(''status'', JString ''broken''), (''name'', JString ''test_c'')]),
      Parsed (JArray []),
      Parsed (JObject [(''name'', JString ''test_d''), (''status'', JString ''skipped'')]),
      Malformed,
      Parsed JNull]"

subsection \<open>Exceptions in sequence\<close>

text \<open>
  \<open>and_then m f\<close> runs \<open>f\<close> on the value of \<open>m\<close>, unless \<open>m\<close> raised: an
  exception that no handler catches ends every statement after it.
\<close>

definition and_then :: "py_error + 'a \<Rightarrow> ('a \<Rightarrow> py_error + 'b) \<Rightarrow> py_error + 'b" where
  "and_then m f = (case m of Inl e \<Rightarrow> Inl e | Inr x \<Rightarrow> f x)"

subsection \<open>The file system\<close>

text \<open>
  The working directory as a map from relative paths to nodes (symbolic links and
  permissions are not modelled). \<open>dirname\<close> is \<open>os.path.dirname\<close>, \<open>under d p\<close>
  says that \<open>p\<close> is \<open>d\<close> or lies below it, \<open>path_exists\<close> is \<open>os.path.exists\<close>,
  \<open>rmtree\<close> is \<open>shutil.rmtree\<close>, \<open>mkdir\<close> is \<open>os.mkdir\<close>, \<open>makedirs\<close> is
  \<open>os.makedirs(name, exist_ok=True)\<close> as the standard library writes it (the parent
  first when it does not exist, then \<open>mkdir\<close>, whose error is dropped when the
  directory is there), and \<open>open_write\<close> is \<open>open(p, "w")\<close> followed by the write.
\<close>

datatype node = Dir | File

type_synonym filesystem = "string \<Rightarrow> node option"

definition dirname :: "string \<Rightarrow> string" where
  "dirname p = rev (drop 1 (dropWhile (\<lambda>c. c \<noteq> CHR ''/'') (rev p)))"

definition under :: "string \<Rightarrow> string \<Rightarrow> bool" where
  "under d p = (p = d \<or> prefix (d @ ''/'') p)"

definition path_exists :: "filesystem \<Rightarrow> string \<Rightarrow> bool" where
  "path_exists fs p = (fs p \<noteq> None)"

definition rmtree :: "filesystem \<Rightarrow> string \<Rightarrow> py_error + filesystem" where
  "rmtree fs d =
     (case fs d of
        None \<Rightarrow> Inl FileNotFoundError
      | Some File \<Rightarrow> Inl NotADirectoryError
      | Some Dir \<Rightarrow> Inr (\<lambda>p. if under d p then None else fs p))"

definition parent_check :: "filesystem \<Rightarrow> string \<Rightarrow> py_error + unit" where
  "parent_check fs p =
     (if dirname p = [] then Inr ()
      else case fs (dirname p) of
             None \<Rightarrow> Inl FileNotFoundError
           | Some File \<Rightarrow> Inl NotADirectoryError
           | Some Dir \<Rightarrow> Inr ())"

definition mkdir :: "filesystem \<Rightarrow> string \<Rightarrow> py_error + filesystem" where
  "mkdir fs p =
     (if fs p \<noteq> None then Inl FileExistsError
      else and_then (parent_check fs p) (\<lambda>_. Inr (fs(p \<mapsto> Dir))))"

function makedirs :: "filesystem \<Rightarrow> string \<Rightarrow> py_error + filesystem" where
  "makedirs fs name =
     and_then
       (if dirname name \<noteq> [] \<and> \<not> path_exists fs (dirname name) then
          (case makedirs fs (dirname name) of Inl FileExistsError \<Rightarrow> Inr fs | r \<Rightarrow> r)
        else Inr fs)
       (\<lambda>fs'. case mkdir fs' name of
                Inr fs'' \<Rightarrow> Inr fs''
              | Inl e \<Rightarrow> if fs' name = Some Dir then Inr fs' else Inl e)"
  by pat_completeness auto
termination
proof (relation "measure (\<lambda>(fs, name). length name)")
  show "wf (measure (\<lambda>(fs :: filesystem, name :: string). length name))" by simp
next
  fix fs :: filesystem and name :: string
  assume "dirname name \<noteq> [] \<and> \<not> path_exists fs (dirname name)"
  then have nonempty: "dirname name \<noteq> []" by simp
  define xs where "xs = dropWhile (\<lambda>c. c \<noteq> CHR ''/'') (rev name)"
  have le: "length xs \<le> length name"
    unfolding xs_def using length_dropWhile_le [of "\<lambda>c. c \<noteq> CHR ''/''" "rev name"] by simp
  have d: "dirname name = rev (drop 1 xs)" by (simp add: dirname_def xs_def)
  with nonempty have "xs \<noteq> []" by auto
  then have "length (drop 1 xs) < length xs" by simp
  with le d have "length (dirname name) < length name" by simp
  then show "((fs, dirname name), (fs, name)) \<in> measure (\<lambda>(fs, name). length name)" by simp
qed

definition open_write :: "filesystem \<Rightarrow> string \<Rightarrow> py_error + filesystem" where
  "open_write fs p =
     (if fs p = Some Dir then Inl IsADirectoryError
      else and_then (parent_check fs p) (\<lambda>_. Inr (fs(p \<mapsto> File))))"

declare makedirs.simps [simp del]

subsection \<open>The fallback report (run\_qa\_pipeline.py, lines 28--136)\<close>

definition ALLURE_RESULTS_DIR :: string where "ALLURE_RESULTS_DIR = ''allure-results''"
definition ALLURE_REPORT_DIR :: string where "ALLURE_REPORT_DIR = ''allure-report''"
definition EXECUTOR_NAME :: string where "EXECUTOR_NAME = ''QA Engineer''"
definition ENVIRONMENT :: string where "ENVIRONMENT = ''Stage''"

text \<open>
  \<open>true_div\<close> is \<open>/\<close> on two integers, with the exact quotient in place of the
  nearest float. \<open>html_content\<close> evaluates the fields of the f-string in their order;
  the page is kept as the record of the values it interpolates (the date and the
  \<open>.1f\<close> rendering of the two rates are not modelled). \<open>create_basic_html_report\<close>
  makes the directory, builds the page, then writes \<open>index.html\<close>. The parameter
  \<open>total\<close> is written \<open>total_count\<close>, since \<open>total\<close> is a constant of HOL.
\<close>

definition true_div :: "int \<Rightarrow> int \<Rightarrow> py_error + rat" where
  "true_div a b = (if b = 0 then Inl ZeroDivisionError else Inr (of_int a / of_int b))"

record html_report =
  html_executor :: string
  html_environment :: string
  html_total :: int
  html_passed :: int
  html_failed :: int
  pass_rate :: rat
  bug_discovery :: rat

definition html_content :: "int \<Rightarrow> int \<Rightarrow> int \<Rightarrow> string \<Rightarrow> string \<Rightarrow> py_error + html_report" where
  "html_content total_count passed failed executor environment =
     and_then (true_div passed total_count) (\<lambda>p.
     and_then (true_div failed total_count) (\<lambda>f.
     Inr \<lparr> html_executor = executor, html_environment = environment,
           html_total = total_count, html_passed = passed, html_failed = failed,
           pass_rate = p * 100, bug_discovery = f * 100 \<rparr>))"

definition create_basic_html_report ::
  "filesystem \<Rightarrow> string \<Rightarrow> int \<Rightarrow> int \<Rightarrow> int \<Rightarrow> string \<Rightarrow> string \<Rightarrow> py_error + filesystem" where
  "create_basic_html_report fs report_dir total_count passed failed executor environment =
     and_then (makedirs fs report_dir) (\<lambda>fs.
     and_then (html_content total_count passed failed executor environment) (\<lambda>html.
     open_write fs (report_dir @ ''/index.html'')))"

subsection \<open>The runner (run\_qa\_pipeline.py, \<open>main\<close>, lines 138--437)\<close>

text \<open>
  Step 1 (lines 151--159): both artifact directories are removed when they exist, then
  the results directory and its \<open>history\<close> subdirectory are made.
\<close>

definition clean_previous :: "filesystem \<Rightarrow> py_error + filesystem" where
  "clean_previous fs =
     and_then (if path_exists fs ALLURE_RESULTS_DIR then rmtree fs ALLURE_RESULTS_DIR else Inr fs) (\<lambda>fs.
     and_then (if path_exists fs ALLURE_REPORT_DIR then rmtree fs ALLURE_REPORT_DIR else Inr fs) (\<lambda>fs.
     and_then (makedirs fs ALLURE_RESULTS_DIR) (\<lambda>fs.
     makedirs fs (ALLURE_RESULTS_DIR @ ''/history''))))"

text \<open>
  Everything outside the script is a parameter of the run, the \<open>world\<close>: the network,
  the home directory, whether \<open>python\<close> can be started and what the test run returns
  and leaves on disk, what \<open>glob\<close>, \<open>open\<close> and \<open>json.load\<close> give for the result
  files, and for each external command whether it cannot be started
  (\<open>FileNotFoundError\<close>), exits with a non-zero status (\<open>CalledProcessError\<close> under
  \<open>check=True\<close>) or succeeds. A successful \<open>allure generate --clean -o\<close> empties the
  report directory and leaves \<open>allure_creates\<close> there; a command that fails leaves the
  file system as it was.
\<close>

datatype cmd_outcome = NotFound | Failed | Succeeded

record world =
  world_net :: network
  home :: string
  pytest_found :: bool
  pytest_returncode :: int
  pytest_creates :: "(string \<times> node) list"
  result_files :: "result_file list"
  allure_generate :: "string \<Rightarrow> cmd_outcome"
  allure_creates :: "(string \<times> node) list"
  scoop_install :: cmd_outcome
  allure_after_install :: cmd_outcome

definition created :: "(string \<times> node) list \<Rightarrow> filesystem \<Rightarrow> filesystem" where
  "created entries fs = foldl (\<lambda>fs (p, n). fs(p \<mapsto> n)) fs entries"

definition generated :: "world \<Rightarrow> filesystem \<Rightarrow> filesystem" where
  "generated w fs = created (allure_creates w) (\<lambda>p. if under ALLURE_REPORT_DIR p then None else fs p)"

definition allure_commands :: "world \<Rightarrow> string list" where
  "allure_commands w =
     [''allure'', ''allure.bat'', ''allure.cmd'', home w @ ''/scoop/apps/allure/current/bin/allure.bat'']"

fun try_allure :: "world \<Rightarrow> filesystem \<Rightarrow> string list \<Rightarrow> filesystem \<times> bool" where
  "try_allure w fs [] = (fs, False)"
| "try_allure w fs (allure_cmd # cmds) =
     (case allure_generate w allure_cmd of
        Succeeded \<Rightarrow> (generated w fs, True)
      | _ \<Rightarrow> try_allure w fs cmds)"

text \<open>
  Step 4 (lines 216--252). The loop over the four command names catches
  \<open>FileNotFoundError\<close> and \<open>CalledProcessError\<close>. When no command worked, \<open>scoop\<close>
  and a second \<open>allure generate\<close> are tried; the bare \<open>except\<close> around them calls
  \<open>create_basic_html_report\<close> from inside the handler, so whatever that call raises
  is caught by nothing.
\<close>

definition generate_report :: "world \<Rightarrow> filesystem \<Rightarrow> int \<Rightarrow> int \<Rightarrow> int \<Rightarrow> py_error + filesystem" where
  "generate_report w fs total_count passed failed =
     (case try_allure w fs (allure_commands w) of
        (fs, True) \<Rightarrow> Inr fs
      | (fs, False) \<Rightarrow>
          if scoop_install w = Succeeded \<and> allure_after_install w = Succeeded then Inr (generated w fs)
          else create_basic_html_report fs ALLURE_REPORT_DIR total_count passed failed EXECUTOR_NAME ENVIRONMENT)"

text \<open>
  Step 5 (lines 254--355): six widget files are opened for writing below
  \<open>allure-report/widgets\<close>, with no handler.
\<close>

definition write_widgets :: "filesystem \<Rightarrow> py_error + filesystem" where
  "write_widgets fs =
     and_then (open_write fs (ALLURE_REPORT_DIR @ ''/widgets/executors.json'')) (\<lambda>fs.
     and_then (open_write fs (ALLURE_REPORT_DIR @ ''/widgets/environment.json'')) (\<lambda>fs.
     and_then (open_write fs (ALLURE_REPORT_DIR @ ''/widgets/history-trend.json'')) (\<lambda>fs.
     and_then (open_write fs (ALLURE_REPORT_DIR @ ''/widgets/categories-trend.json'')) (\<lambda>fs.
     and_then (open_write fs (ALLURE_REPORT_DIR @ ''/widgets/retry-trend.json'')) (\<lambda>fs.
     open_write fs (ALLURE_REPORT_DIR @ ''/widgets/duration-trend.json''))))))"

text \<open>
  \<open>pipeline_main\<close> is \<open>main\<close> of the runner (\<open>validation_main\<close> below is \<open>main\<close> of
  the validator), up to the last statement that can raise: in step 6 every
  \<open>Popen\<close> is guarded for \<open>FileNotFoundError\<close> and every \<open>webbrowser.open\<close> by a bare
  \<open>except\<close>, and the rest prints. The return code of the test run is never read. The
  process ends with status 1 when an exception is not caught and with 0 otherwise
  (\<open>exit_code\<close>); \<open>uncaught\<close> names the exception.
\<close>

definition pipeline_main :: "world \<Rightarrow> filesystem \<Rightarrow> py_error + filesystem" where
  "pipeline_main w fs =
     and_then (find_available_port (world_net w) 64678) (\<lambda>REPORT_PORT.
     and_then (clean_previous fs) (\<lambda>fs.
     and_then (open_write fs (ALLURE_RESULTS_DIR @ ''/environment.properties'')) (\<lambda>fs.
     and_then (open_write fs (ALLURE_RESULTS_DIR @ ''/executor.json'')) (\<lambda>fs.
     and_then (if pytest_found w then Inr (created (pytest_creates w) fs) else Inl FileNotFoundError) (\<lambda>fs.
     let summary = aggregate (result_files w) in
     and_then (generate_report w fs (n_total summary) (n_passed summary) (n_failed summary)) (\<lambda>fs.
     write_widgets fs))))))"

definition exit_code :: "py_error + 'a \<Rightarrow> int" where
  "exit_code r = (case r of Inl _ \<Rightarrow> 1 | Inr _ \<Rightarrow> 0)"

definition uncaught :: "py_error + 'a \<Rightarrow> py_error option" where
  "uncaught r = (case r of Inl e \<Rightarrow> Some e | Inr _ \<Rightarrow> None)"

text \<open>
  Two runs that differ only in the Allure command line tool: in both, one test fails
  and the test command returns 1; in the first every \<open>allure\<close> command works, in the
  second none can be started and neither can \<open>scoop\<close>.
\<close>

definition world_with_allure :: world where
  "world_with_allure =
     \<lparr> world_net = \<lparr>localhost_resolves = True, port_free = (\<lambda>_. True)\<rparr>,
       home = ''/home/qa'',
       pytest_found = True,
       pytest_returncode = 1,
       pytest_creates = [(''allure-results/a-result.json'', File)],
       result_files = [Parsed (JObject [(''status'', JString ''failed'')])],
       allure_generate = (\<lambda>_. Succeeded),
       allure_creates = [(''allure-report'', Dir), (''allure-report/widgets'', Dir), (''allure-report/index.html'', File)],
       scoop_install = NotFound,
       allure_after_install = NotFound \<rparr>"

definition world_without_allure :: world where
  "world_without_allure =
     world_with_allure \<lparr> allure_generate := (\<lambda>_. NotFound) \<rparr>"

text \<open>
  For the statement of the clean-up step: a path is a directory, or there is nothing at or
  below it; \<open>without d fs\<close> is \<open>fs\<close> with the tree at \<open>d\<close> removed; \<open>cleaned fs\<close> is
  \<open>fs\<close> with both artifact trees replaced by an empty results directory and its empty
  \<open>history\<close> subdirectory.
\<close>

definition absent_or_dir :: "filesystem \<Rightarrow> string \<Rightarrow> bool" where
  "absent_or_dir fs d = (fs d = Some Dir \<or> (\<forall>p. under d p \<longrightarrow> fs p = None))"

definition without :: "string \<Rightarrow> filesystem \<Rightarrow> filesystem" where
  "without d fs = (\<lambda>p. if under d p then None else fs p)"


definition cleaned :: "filesystem \<Rightarrow> filesystem" where
  "cleaned fs =
     (\<lambda>p. if p = ALLURE_RESULTS_DIR \<or> p = ALLURE_RESULTS_DIR @ ''/history'' then Some Dir
          else if under ALLURE_RESULTS_DIR p \<or> under ALLURE_REPORT_DIR p then None
          else fs p)"

subsection \<open>The validator (final\_qa\_validation.py, lines 170--219 and 292--383)\<close>

text \<open>
  Each of the five validations returns a boolean or raises. The loop of
  \<open>generate_validation_report\<close> (lines 311--337) clears \<open>all_passed\<close> on \<open>False\<close> and on
  an exception; the report file is then written (\<open>writable\<close> says whether that works)
  and \<open>main\<close> calls \<open>sys.exit(0 if results["overall_success"] else 1)\<close>.
  \<open>validate_regression_suite\<close> returns \<open>success or "collected" in stdout\<close>.
\<close>

datatype validation_outcome = Returned bool | RaisedException

fun validation_loop :: "bool \<Rightarrow> validation_outcome list \<Rightarrow> bool" where
  "validation_loop all_passed [] = all_passed"
| "validation_loop all_passed (Returned passed # rest) =
     validation_loop (if \<not> passed then False else all_passed) rest"
| "validation_loop all_passed (RaisedException # rest) = validation_loop False rest"

definition generate_validation_report :: "validation_outcome list \<Rightarrow> bool \<Rightarrow> py_error + bool" where
  "generate_validation_report outcomes writable =
     (if writable then Inr (validation_loop True outcomes) else Inl OSError)"

definition validation_main :: "validation_outcome list \<Rightarrow> bool \<Rightarrow> int" where
  "validation_main outcomes writable =
     (case generate_validation_report outcomes writable of
        Inl _ \<Rightarrow> 1
      | Inr overall_success \<Rightarrow> if overall_success then 0 else 1)"

definition validate_regression_suite :: "run_outcome \<Rightarrow> bool" where
  "validate_regression_suite outcome =
     (case run_pytest_command outcome of (success, stdout, stderr) \<Rightarrow> success \<or> py_in ''collected'' stdout)"

text \<open>
  \<open>validate_test_collection\<close> (lines 63--119): one collection command per test type,
  whose outcome the parameter \<open>runs\<close> gives for the pattern of the type; the count of
  each type is stored, and the validation passes when the count stored for
  \<open>regression\<close> is positive.
\<close>

definition test_types :: "(string \<times> string) list" where
  "test_types =
     [(''unit'', ''unit/''), (''integration'', ''integration/''), (''end_to_end'', ''end_to_end/''),
      (''performance'', ''performance/''), (''regression'', ''-m regression''),
      (''bug_discovery'', ''-m bug_discovery'')]"

definition collection_results :: "(string \<Rightarrow> run_outcome) \<Rightarrow> (string \<times> int) list" where
  "collection_results runs =
     map (\<lambda>(test_type, pattern).
            (test_type,
             case run_pytest_command (runs pattern) of
               (success, stdout, stderr) \<Rightarrow> collected_count success stdout))
         test_types"

definition validate_test_collection :: "(string \<Rightarrow> run_outcome) \<Rightarrow> bool" where
  "validate_test_collection runs =
     (let regression_count =
            (case map_of (collection_results runs) ''regression'' of Some count \<Rightarrow> count | None \<Rightarrow> 0)
      in regression_count > 0)"

text \<open>
  Collection commands that all succeed with return code 0 and print their summary in
  another format: no command times out and none fails to start.
\<close>

definition reworded_summary :: "string \<Rightarrow> run_outcome" where
  "reworded_summary pattern = Completed 0 ''collected 87 tests in 0.12s'' ''''"




section \<open>Properties\<close>

text \<open>
  C9. For a non-negative failed count, the "Current" entry of the categories-trend
  widget has Product defects + Test defects = failed, and its Environment issues and
  Automation issues are 0.
\<close>

theorem categories_current_sum:
  assumes "0 \<le> failed"
  shows "product_defects (categories_current failed) + test_defects (categories_current failed) = failed
         \<and> environment_issues (categories_current failed) = 0
         \<and> automation_issues (categories_current failed) = 0"
  using assms by (simp add: categories_current_def)

theorem categories_current_sum_witness:
  "(0::int) \<le> 3
   \<and> product_defects (categories_current 3) + test_defects (categories_current 3) = 3
   \<and> environment_issues (categories_current 3) = 0
   \<and> automation_issues (categories_current 3) = 0"
  using categories_current_sum [of 3] by simp

subsection \<open>The port search\<close>

lemma bind_valid_port:
  "0 \<le> port \<Longrightarrow> port \<le> 65535 \<Longrightarrow> bind net port = Inr () \<or> bind net port = Inl OSError"
  by (simp add: bind_def)

lemma try_ports_upto:
  "0 \<le> i \<Longrightarrow> j \<le> 65535 \<Longrightarrow>
   \<exists>p. try_ports net s [i..j] = Inr p \<and>
       ((i \<le> p \<and> p \<le> j \<and> bind net p = Inr () \<and> (\<forall>q. i \<le> q \<and> q < p \<longrightarrow> bind net q \<noteq> Inr ()))
        \<or> (p = s \<and> (\<forall>q. i \<le> q \<and> q \<le> j \<longrightarrow> bind net q \<noteq> Inr ())))"
proof (induction i j rule: upto.induct)
  case (1 i j)
  show ?case
  proof (cases "i \<le> j")
    case False
    then show ?thesis by auto
  next
    case True
    then have unfold: "[i..j] = i # [i + 1..j]" by (simp add: upto_rec1)
    from True 1 have "bind net i = Inr () \<or> bind net i = Inl OSError"
      by (intro bind_valid_port) auto
    then show ?thesis
    proof
      assume ok: "bind net i = Inr ()"
      then show ?thesis using True unfold by auto
    next
      assume busy: "bind net i = Inl OSError"
      from 1 True obtain p where p: "try_ports net s [i + 1..j] = Inr p"
        and alt: "(i + 1 \<le> p \<and> p \<le> j \<and> bind net p = Inr () \<and> (\<forall>q. i + 1 \<le> q \<and> q < p \<longrightarrow> bind net q \<noteq> Inr ()))
        \<or> (p = s \<and> (\<forall>q. i + 1 \<le> q \<and> q \<le> j \<longrightarrow> bind net q \<noteq> Inr ()))"
        by force
      have step: "try_ports net s [i..j] = Inr p" using unfold busy p by simp
      have low: "\<And>q. i \<le> q \<Longrightarrow> q < i + 1 \<Longrightarrow> bind net q \<noteq> Inr ()"
        using busy by (metis Inl_Inr_False zless_add1_eq not_less)
      from alt show ?thesis
      proof
        assume a: "i + 1 \<le> p \<and> p \<le> j \<and> bind net p = Inr () \<and> (\<forall>q. i + 1 \<le> q \<and> q < p \<longrightarrow> bind net q \<noteq> Inr ())"
        have "\<forall>q. i \<le> q \<and> q < p \<longrightarrow> bind net q \<noteq> Inr ()"
        proof (intro allI impI)
          fix q assume "i \<le> q \<and> q < p"
          then show "bind net q \<noteq> Inr ()" using a low [of q] by (cases "q < i + 1") auto
        qed
        with a step show ?thesis by auto
      next
        assume b: "p = s \<and> (\<forall>q. i + 1 \<le> q \<and> q \<le> j \<longrightarrow> bind net q \<noteq> Inr ())"
        have "\<forall>q. i \<le> q \<and> q \<le> j \<longrightarrow> bind net q \<noteq> Inr ()"
        proof (intro allI impI)
          fix q assume "i \<le> q \<and> q \<le> j"
          then show "bind net q \<noteq> Inr ()" using b low [of q] by (cases "q < i + 1") auto
        qed
        with b step show ?thesis by auto
      qed
    qed
  qed
qed

text \<open>
  Inside the range of valid ports the search does what its docstring and its last line
  say: for \<open>0 \<le> start_port\<close> and \<open>start_port + 99 \<le> 65535\<close> it returns the first
  port of the range that can be bound on localhost, or start_port itself when none can.
\<close>

lemma find_available_port_in_range:
  assumes "0 \<le> start_port" and "start_port + 99 \<le> 65535"
  shows "\<exists>p. find_available_port net start_port = Inr p
           \<and> start_port \<le> p \<and> p \<le> start_port + 99
           \<and> ((bind net p = Inr () \<and> (\<forall>q. start_port \<le> q \<and> q < p \<longrightarrow> bind net q \<noteq> Inr ()))
              \<or> (p = start_port \<and> (\<forall>q. start_port \<le> q \<and> q \<le> start_port + 99 \<longrightarrow> bind net q \<noteq> Inr ())))"
  using try_ports_upto [OF assms, of net start_port]
  unfolding find_available_port_def by auto

text \<open>
  C10 fails on the code. From the valid port 65500 with every port taken, the loop goes
  on to port 65536, whose \<open>bind\<close> raises \<open>OverflowError\<close>; the handler catches
  \<open>OSError\<close> only, so the function raises where the claim (and the code's own
  \<open>return start_port  # fallback\<close>) says it returns start_port. From the default 64678
  in the same network it does fall back.
\<close>

theorem find_available_port_overflow:
  "find_available_port all_ports_taken 65500 = Inl OverflowError
   \<and> find_available_port all_ports_taken 64678 = Inr 64678"
  unfolding find_available_port_def by (simp add: all_ports_taken_def bind_def upto_rec1)

subsection \<open>Counting the collected tests\<close>

lemma split_ws_nonspace:
  "\<forall>c\<in>set ds. \<not> is_space c \<Longrightarrow> split_ws tok (ds @ cs) = split_ws (tok @ ds) cs"
  by (induction ds arbitrary: tok) simp_all

lemma split_on_nonsep:
  "sep \<notin> set xs \<Longrightarrow> split_on sep cur (xs @ ys) = split_on sep (cur @ xs) ys"
  by (induction xs arbitrary: cur) auto

lemma py_in_Nil: "py_in [] s"
  by (cases s) simp_all

lemma py_in_prefix: "py_in sub (sub @ ss)"
proof (cases "sub @ ss")
  case Nil
  then show ?thesis by simp
next
  case (Cons c cs)
  have "prefix sub (sub @ ss)" by simp
  then show ?thesis unfolding Cons by simp
qed

lemma py_in_append: "py_in sub (ps @ sub @ ss)"
  by (induction ps) (simp_all add: py_in_prefix)

lemma py_in_char: "py_in [c] s \<longleftrightarrow> c \<in> set s"
  by (induction s) auto

lemma below_ten:
  "(d::nat) < 10 \<Longrightarrow> d = 0 \<or> d = 1 \<or> d = 2 \<or> d = 3 \<or> d = 4 \<or> d = 5 \<or> d = 6 \<or> d = 7 \<or> d = 8 \<or> d = 9"
  by arith

lemma digit_char_is_digit: "d < 10 \<Longrightarrow> is_digit (digit_char d)"
  by (drule below_ten) (auto simp: is_digit_def digit_char_def)

lemma digit_val_digit_char: "d < 10 \<Longrightarrow> digit_val (digit_char d) = d"
  by (drule below_ten) (auto simp: digit_val_def digit_char_def)

lemma str_of_nat_digits: "\<forall>c\<in>set (str_of_nat n). is_digit c"
proof (induction n rule: str_of_nat.induct)
  case (1 n)
  then show ?case
    by (subst str_of_nat.simps) (auto simp: digit_char_is_digit)
qed

lemma str_of_nat_nonempty: "str_of_nat n \<noteq> []"
  by (subst str_of_nat.simps) simp

lemma parse_digits_all_digits:
  "\<forall>c\<in>set ds. is_digit c \<Longrightarrow> ds \<noteq> [] \<or> prev \<Longrightarrow>
   parse_digits acc prev ds = Some (foldl (\<lambda>a c. 10 * a + digit_val c) acc ds)"
  by (induction ds arbitrary: acc prev) auto

lemma foldl_str_of_nat: "foldl (\<lambda>a c. 10 * a + digit_val c) 0 (str_of_nat n) = n"
proof (induction n rule: str_of_nat.induct)
  case (1 n)
  show ?case
  proof (cases "n < 10")
    case True
    then show ?thesis by (subst str_of_nat.simps) (simp add: digit_val_digit_char)
  next
    case False
    with 1 show ?thesis by (subst str_of_nat.simps) (simp add: digit_val_digit_char)
  qed
qed

lemma is_digit_not_sign:
  "is_digit c \<Longrightarrow> c \<noteq> CHR ''-'' \<and> c \<noteq> CHR ''+'' \<and> c \<noteq> CHR ''/'' \<and> \<not> is_space c"
  by (auto simp: is_digit_def is_space_def)

lemma py_int_str_of_nat:
  assumes "length (str_of_nat n) \<le> int_max_str_digits"
  shows "py_int (str_of_nat n) = Inr (int n)"
proof -
  obtain c cs where s: "str_of_nat n = c # cs"
    using str_of_nat_nonempty [of n] by (cases "str_of_nat n") auto
  have d: "\<forall>c\<in>set (c # cs). is_digit c" using str_of_nat_digits [of n] s by simp
  then have c: "c \<noteq> CHR ''-'' \<and> c \<noteq> CHR ''+''" using is_digit_not_sign by simp
  have "parse_digits 0 False (c # cs) = Some (foldl (\<lambda>a c. 10 * a + digit_val c) 0 (c # cs))"
    using d by (intro parse_digits_all_digits) auto
  then have p: "parse_digits 0 False (c # cs) = Some n"
    using foldl_str_of_nat [of n] s by simp
  have "filter is_digit (c # cs) = c # cs"
    using d by (intro filter_True) simp
  then have l: "\<not> int_max_str_digits < length (filter is_digit (c # cs))"
    using assms s by simp
  have "digits_to_int False (c # cs) = Inr (int n)"
    unfolding digits_to_int_def using p l by simp
  then show ?thesis using c s by (simp add: py_int_def)
qed

lemma py_split_first_token:
  assumes "\<forall>c\<in>set tok. \<not> is_space c" and "tok \<noteq> []"
  shows "py_split (tok @ CHR '' '' # rest) = tok # split_ws [] rest"
  using assms split_ws_nonspace [of tok "[]" "CHR '' '' # rest"]
  by (simp add: py_split_def is_space_def)

lemma parse_count_plain:
  assumes digits: "length (str_of_nat n) \<le> int_max_str_digits"
  shows "parse_count (str_of_nat n @ '' tests collected'' @ rest) = Inr (int n)"
proof -
  have nosp: "\<forall>c\<in>set (str_of_nat n). \<not> is_space c"
    using str_of_nat_digits is_digit_not_sign by blast
  have sp: "py_split (str_of_nat n @ CHR '' '' # (''tests collected'' @ rest))
            = str_of_nat n # split_ws [] (''tests collected'' @ rest)"
    by (rule py_split_first_token [OF nosp str_of_nat_nonempty])
  have noslash: "\<not> py_in ''/'' (str_of_nat n)"
    using str_of_nat_digits is_digit_not_sign by (auto simp: py_in_char)
  show ?thesis
    using sp noslash by (simp add: parse_count_def py_int_str_of_nat [OF digits])
qed

lemma parse_count_fraction:
  assumes digits: "length (str_of_nat n) \<le> int_max_str_digits"
  shows "parse_count (str_of_nat m @ ''/'' @ str_of_nat n @ '' tests collected'' @ rest) = Inr (int n)"
proof -
  let ?tok = "str_of_nat m @ CHR ''/'' # str_of_nat n"
  have nosp: "\<forall>c\<in>set ?tok. \<not> is_space c"
    using str_of_nat_digits is_digit_not_sign by (auto simp: is_space_def)
  have sp: "py_split (?tok @ CHR '' '' # (''tests collected'' @ rest))
            = ?tok # split_ws [] (''tests collected'' @ rest)"
    by (rule py_split_first_token [OF nosp]) simp
  have slash: "py_in ''/'' ?tok" by (simp add: py_in_char)
  have nm: "CHR ''/'' \<notin> set (str_of_nat m)" and nn: "CHR ''/'' \<notin> set (str_of_nat n)"
    using str_of_nat_digits is_digit_not_sign by blast+
  have "split_on CHR ''/'' [] (str_of_nat m @ CHR ''/'' # str_of_nat n)
        = str_of_nat m # split_on CHR ''/'' [] (str_of_nat n @ [])"
    using split_on_nonsep [OF nm, of "[]" "CHR ''/'' # str_of_nat n"] by simp
  also have "split_on CHR ''/'' [] (str_of_nat n @ []) = [str_of_nat n]"
    using split_on_nonsep [OF nn, of "[]" "[]"] by simp
  finally have parts: "py_split_sep CHR ''/'' ?tok = [str_of_nat m, str_of_nat n]"
    by (simp add: py_split_sep_def)
  show ?thesis
    using sp slash parts by (simp add: parse_count_def py_int_str_of_nat [OF digits])
qed

lemma is_collected_shape:
  "py_in ''collected'' (pre @ '' tests collected'' @ rest) \<and> py_in ''test'' (pre @ '' tests collected'' @ rest)"
proof
  show "py_in ''collected'' (pre @ '' tests collected'' @ rest)"
    using py_in_append [of "''collected''" "pre @ '' tests ''" rest] by simp
  show "py_in ''test'' (pre @ '' tests collected'' @ rest)"
    using py_in_append [of "''test''" "pre @ '' ''" "''s collected'' @ rest"] by simp
qed

text \<open>
  C5 (as amended). When the first line of the output that mentions both "collected" and
  "test" has the shape "N tests collected" (whatever follows on the line), Summarize
  returns N; when it has the shape "M/N tests collected", Summarize returns the
  denominator N, not M. N is any natural number whose numeral has at most 4300 digits,
  the interpreter's limit for \<open>int\<close>.
\<close>

theorem collected_count_shapes:
  assumes lines: "py_split_sep CHR 0x0A stdout = before @ line # after"
    and first: "\<forall>l\<in>set before. \<not> mentions_count l"
    and shape: "line = str_of_nat n @ '' tests collected'' @ rest
                \<or> line = str_of_nat m @ ''/'' @ str_of_nat n @ '' tests collected'' @ rest"
    and digits: "length (str_of_nat n) \<le> int_max_str_digits"
  shows "collected_count True stdout = int n"
proof -
  have match: "py_in ''collected'' line \<and> py_in ''test'' line"
    using shape is_collected_shape [of "str_of_nat n" rest]
      is_collected_shape [of "str_of_nat m @ ''/'' @ str_of_nat n" rest] by auto
  have "filter (\<lambda>l. py_in ''collected'' l \<and> py_in ''test'' l) before = []"
    using first by (simp add: filter_empty_conv mentions_count_def)
  then have sel: "filter (\<lambda>l. py_in ''collected'' l \<and> py_in ''test'' l) (py_split_sep CHR 0x0A stdout)
                  = line # filter (\<lambda>l. py_in ''collected'' l \<and> py_in ''test'' l) after"
    using lines match by simp
  have "parse_count line = Inr (int n)"
    using shape parse_count_plain [OF digits] parse_count_fraction [OF digits] by blast
  then show ?thesis using sel by (simp add: collected_count_def)
qed

theorem collected_count_shapes_witness:
  "py_split_sep CHR 0x0A (''unit/test_a.py::test_x'' @ [CHR 0x0A] @ ''12/87 tests collected (75 deselected) in 0.12s'')
     = [''unit/test_a.py::test_x''] @ ''12/87 tests collected (75 deselected) in 0.12s'' # []
   \<and> filter mentions_count [''unit/test_a.py::test_x''] = []
   \<and> ''12/87 tests collected (75 deselected) in 0.12s''
       = str_of_nat 12 @ ''/'' @ str_of_nat 87 @ '' tests collected'' @ '' (75 deselected) in 0.12s''
   \<and> length (str_of_nat 87) \<le> int_max_str_digits
   \<and> collected_count True (''unit/test_a.py::test_x'' @ [CHR 0x0A] @ ''12/87 tests collected (75 deselected) in 0.12s'') = 87"
  using collected_count_shapes [of "''unit/test_a.py::test_x'' @ [CHR 0x0A] @ ''12/87 tests collected (75 deselected) in 0.12s''"
     "[''unit/test_a.py::test_x'']" "''12/87 tests collected (75 deselected) in 0.12s''" "[]" 87 "'' (75 deselected) in 0.12s''" 12]
  by (simp add: py_split_sep_def str_of_nat.simps digit_char_def mentions_count_def int_max_str_digits_def)

text \<open>
  C5 as stated fails: a line of the shape "5 tests collected" is in the output, but an
  earlier line (the identifier of a test) mentions both words, its token after the
  slash is not a number, and Summarize stores 0.
\<close>

theorem collected_count_shadowed_counterexample:
  "collected_count True (''unit/test_collected.py::test_x'' @ [CHR 0x0A] @ ''5 tests collected in 0.01s'') = 0"
  by (simp add: collected_count_def py_split_sep_def parse_count_def py_split_def is_space_def
      py_int_def digits_to_int_def is_digit_def digit_val_def)

subsection \<open>Outputs without a count token\<close>

lemma split_ws_skip: "split_ws [] s = split_ws [] (dropWhile is_space s)"
  by (induction s) simp_all

lemma split_ws_token:
  "tok \<noteq> [] \<Longrightarrow> \<exists>rest. split_ws tok s = (tok @ takeWhile (\<lambda>c. \<not> is_space c) s) # rest"
proof (induction s arbitrary: tok)
  case Nil
  then show ?case by simp
next
  case (Cons c cs)
  show ?case
  proof (cases "is_space c")
    case True
    with Cons.prems show ?thesis by simp
  next
    case False
    from Cons.IH [of "tok @ [c]"] obtain rest
      where "split_ws (tok @ [c]) cs = ((tok @ [c]) @ takeWhile (\<lambda>c. \<not> is_space c) cs) # rest"
      by auto
    with False show ?thesis by simp
  qed
qed

lemma py_split_first:
  "(py_split line = [] \<and> first_token line = [])
   \<or> (\<exists>rest. py_split line = first_token line # rest)"
proof (cases "dropWhile is_space line")
  case Nil
  have "split_ws [] line = split_ws [] (dropWhile is_space line)" by (rule split_ws_skip)
  also have "\<dots> = []" unfolding Nil by simp
  finally have "py_split line = []" by (simp add: py_split_def)
  moreover have "first_token line = []" unfolding first_token_def Nil by simp
  ultimately show ?thesis by simp
next
  case (Cons c cs)
  then have c: "\<not> is_space c" using hd_dropWhile [of is_space line] by simp
  obtain rest where "split_ws [c] cs = ([c] @ takeWhile (\<lambda>c. \<not> is_space c) cs) # rest"
    using split_ws_token [of "[c]" cs] by auto
  then have "split_ws [] (c # cs) = takeWhile (\<lambda>c. \<not> is_space c) (c # cs) # rest"
    using c by simp
  then have "py_split line = first_token line # rest"
    using Cons split_ws_skip [of line] by (simp add: py_split_def first_token_def)
  then show ?thesis by blast
qed

lemma split_on_unfold:
  "split_on sep cur s =
     (cur @ takeWhile (\<lambda>c. c \<noteq> sep) s)
     # (if sep \<in> set s then split_on sep [] (drop 1 (dropWhile (\<lambda>c. c \<noteq> sep) s)) else [])"
  by (induction s arbitrary: cur) auto

lemma py_split_sep_second:
  assumes "CHR ''/'' \<in> set tok"
  shows "\<exists>head rest. py_split_sep CHR ''/'' tok = head # count_token tok # rest"
proof -
  let ?tail = "drop 1 (dropWhile (\<lambda>c. c \<noteq> CHR ''/'') tok)"
  have "split_on CHR ''/'' [] tok = takeWhile (\<lambda>c. c \<noteq> CHR ''/'') tok # split_on CHR ''/'' [] ?tail"
    using assms split_on_unfold [of "CHR ''/''" "[]" tok] by simp
  moreover have "\<exists>rest. split_on CHR ''/'' [] ?tail = takeWhile (\<lambda>c. c \<noteq> CHR ''/'') ?tail # rest"
    using split_on_unfold [of "CHR ''/''" "[]" ?tail] by simp
  ultimately show ?thesis
    using assms by (auto simp: py_split_sep_def count_token_def)
qed

lemma is_digit_not_underscore: "is_digit c \<Longrightarrow> c \<noteq> CHR ''_''"
  by (auto simp: is_digit_def)

lemma parse_digits_shape:
  "parse_digits acc prev body = Some n \<Longrightarrow>
     list_all (\<lambda>c. is_digit c \<or> c = CHR ''_'') body
     \<and> (body = [] \<longrightarrow> prev)
     \<and> (body \<noteq> [] \<longrightarrow> is_digit (last body))
     \<and> (\<not> prev \<longrightarrow> body \<noteq> [] \<and> is_digit (hd body))
     \<and> \<not> py_in ''__'' body"
proof (induction body arbitrary: acc prev)
  case Nil
  then show ?case by (simp split: if_splits)
next
  case (Cons c cs)
  show ?case
  proof (cases "is_digit c")
    case True
    with Cons.prems have "parse_digits (10 * acc + digit_val c) True cs = Some n" by simp
    from Cons.IH [OF this] True is_digit_not_underscore [OF True] show ?thesis by auto
  next
    case False
    with Cons.prems have u: "c = CHR ''_''" and p: prev
      and r: "parse_digits acc False cs = Some n"
      by (simp_all split: if_splits)
    from Cons.IH [OF r] have ih: "list_all (\<lambda>c. is_digit c \<or> c = CHR ''_'') cs"
      "cs \<noteq> []" "is_digit (last cs)" "is_digit (hd cs)" "\<not> py_in ''__'' cs"
      by auto
    from ih(2) obtain d ds where cs: "cs = d # ds" by (cases cs) auto
    with ih(4) have "d \<noteq> CHR ''_''" using is_digit_not_underscore by auto
    with u p ih cs show ?thesis by auto
  qed
qed

lemma digits_to_int_literal:
  assumes "digits_to_int negative body = Inr v"
  shows "body \<noteq> [] \<and> list_all (\<lambda>c. is_digit c \<or> c = CHR ''_'') body
         \<and> is_digit (hd body) \<and> is_digit (last body) \<and> \<not> py_in ''__'' body"
proof -
  from assms obtain n where "parse_digits 0 False body = Some n"
    by (auto simp: digits_to_int_def split: option.splits)
  from parse_digits_shape [OF this] show ?thesis by auto
qed

lemma py_int_literal: "py_int s = Inr v \<Longrightarrow> int_literal s"
proof (cases s)
  case Nil
  assume "py_int s = Inr v"
  with Nil show ?thesis by (simp add: py_int_def)
next
  case (Cons c cs)
  assume v: "py_int s = Inr v"
  show ?thesis
  proof (cases "c = CHR ''-'' \<or> c = CHR ''+''")
    case True
    with v Cons have "\<exists>negative. digits_to_int negative cs = Inr v"
      by (auto simp: py_int_def split: if_splits)
    then obtain negative where "digits_to_int negative cs = Inr v" ..
    from digits_to_int_literal [OF this] True Cons show ?thesis
      by (simp add: int_literal_def)
  next
    case False
    with v Cons have "digits_to_int False s = Inr v"
      by (simp add: py_int_def)
    from digits_to_int_literal [OF this] False Cons show ?thesis
      by (simp add: int_literal_def)
  qed
qed

lemma py_int_not_literal: "\<not> int_literal s \<Longrightarrow> \<exists>e. py_int s = Inl e"
  using py_int_literal [of s] by (cases "py_int s") auto

lemma parse_count_not_literal:
  assumes "\<not> int_literal (count_token (first_token line))"
  shows "\<exists>e. parse_count line = Inl e"
proof -
  from py_split_first [of line] show ?thesis
  proof
    assume "py_split line = [] \<and> first_token line = []"
    then show ?thesis by (simp add: parse_count_def)
  next
    assume "\<exists>rest. py_split line = first_token line # rest"
    then obtain rest where sp: "py_split line = first_token line # rest" ..
    show ?thesis
    proof (cases "CHR ''/'' \<in> set (first_token line)")
      case True
      from py_split_sep_second [OF True] obtain head others
        where "py_split_sep CHR ''/'' (first_token line) = head # count_token (first_token line) # others"
        by blast
      with sp True py_int_not_literal [OF assms] show ?thesis
        by (auto simp: parse_count_def py_in_char)
    next
      case False
      then have "count_token (first_token line) = first_token line"
        by (simp add: count_token_def)
      with sp False py_int_not_literal [OF assms] show ?thesis
        by (auto simp: parse_count_def py_in_char)
    qed
  qed
qed

lemma unparsed_count_is_zero:
  assumes "no_count_token stdout"
  shows "collected_count True stdout = 0"
proof (cases "filter mentions_count (py_split_sep CHR 0x0A stdout)")
  case Nil
  then have "filter (\<lambda>line. py_in ''collected'' line \<and> py_in ''test'' line) (py_split_sep CHR 0x0A stdout) = []"
    by (simp add: mentions_count_def [abs_def])
  then show ?thesis by (simp add: collected_count_def)
next
  case (Cons line rest)
  with assms have "\<not> int_literal (count_token (first_token line))"
    by (simp add: no_count_token_def)
  from parse_count_not_literal [OF this] obtain e where "parse_count line = Inl e" ..
  moreover from Cons
  have "filter (\<lambda>line. py_in ''collected'' line \<and> py_in ''test'' line) (py_split_sep CHR 0x0A stdout) = line # rest"
    by (simp add: mentions_count_def [abs_def])
  ultimately show ?thesis by (simp add: collected_count_def)
qed

text \<open>
  C2 (as amended). For every output of a successful command that contains no
  recognizable count token, Summarize stores the integer 0 (and logs a warning): the
  value it also stores for the count "0 tests collected", so a parse failure is not
  told apart from a count of zero. An output has no recognizable count token when no
  line mentions both "collected" and "test", or when the count token of the first such
  line (its first whitespace-separated token or, when that token contains a slash, the
  part between its first and second slash) is not an integer literal (an optional sign,
  then decimal digits with single underscores allowed between digits).
\<close>

theorem collected_count_no_token:
  assumes "no_count_token stdout"
  shows "collected_count True stdout = 0
         \<and> collected_count True stdout = collected_count True ''0 tests collected''"
proof -
  have "collected_count True ''0 tests collected'' = 0"
    by (simp add: collected_count_def py_split_sep_def parse_count_def py_split_def is_space_def
        py_int_def digits_to_int_def is_digit_def digit_val_def)
  with unparsed_count_is_zero [OF assms] show ?thesis by simp
qed

theorem collected_count_no_token_witness:
  "collected_count True ''collected 87 tests in 0.12s'' = 0
   \<and> collected_count True ''x/y/87 tests collected'' = 0"
proof -
  have a: "no_count_token ''collected 87 tests in 0.12s''"
    by (simp add: no_count_token_def mentions_count_def py_split_sep_def first_token_def
        count_token_def int_literal_def is_space_def is_digit_def)
  have b: "no_count_token ''x/y/87 tests collected''"
    by (simp add: no_count_token_def mentions_count_def py_split_sep_def first_token_def
        count_token_def int_literal_def is_space_def is_digit_def)
  from collected_count_no_token [OF a] collected_count_no_token [OF b] show ?thesis by simp
qed

text \<open>
  C2 as stated fails: the output "no tests ran in 0.01s" has no count token and
  Summarize stores 0 for it, the value it also stores for "0 tests collected".
\<close>

theorem collected_count_zero_counterexample:
  "collected_count True ''no tests ran in 0.01s'' = 0
   \<and> collected_count True ''0 tests collected'' = 0"
  by (simp add: collected_count_def py_split_sep_def parse_count_def py_split_def is_space_def
      py_int_def digits_to_int_def is_digit_def digit_val_def)

subsection \<open>Aggregating the result files\<close>

lemma count_result_total:
  "n_total (count_result s f) = n_total s + (if parses f then 1 else 0)"
  by (induction s f rule: count_result.induct) (simp_all add: parses_def Let_def)

lemma count_result_passed:
  "n_passed (count_result s f) = n_passed s + (if has_status [''passed''] f then 1 else 0)"
  by (induction s f rule: count_result.induct) (simp_all add: has_status_def status_of_def Let_def)

lemma count_result_failed:
  "n_failed (count_result s f) = n_failed s + (if has_status [''failed'', ''broken''] f then 1 else 0)"
  by (induction s f rule: count_result.induct) (auto simp: has_status_def status_of_def Let_def)

lemma count_result_skip: "\<not> parses f \<Longrightarrow> count_result s f = s"
  by (cases f) (simp_all add: parses_def)

lemma foldl_count_total:
  "n_total (foldl count_result s fs) = n_total s + int (length (filter parses fs))"
  by (induction fs arbitrary: s) (simp_all add: count_result_total)

lemma foldl_count_passed:
  "n_passed (foldl count_result s fs) = n_passed s + int (length (filter (has_status [''passed'']) fs))"
  by (induction fs arbitrary: s) (simp_all add: count_result_passed)

lemma foldl_count_failed:
  "n_failed (foldl count_result s fs) = n_failed s + int (length (filter (has_status [''failed'', ''broken'']) fs))"
  by (induction fs arbitrary: s) (simp_all add: count_result_failed)

lemma foldl_count_skip:
  "foldl count_result s (filter parses fs) = foldl count_result s fs"
  by (induction fs arbitrary: s) (simp_all add: count_result_skip)

lemma status_classes:
  "(if has_status [''passed''] f then 1 else 0)
   + (if has_status [''failed'', ''broken''] f then 1 else 0)
   + (if other_status f then 1 else 0)
   = (if parses f then 1 else (0::int))"
proof (cases "parses f")
  case False
  then have "status_of f = None"
    by (cases f) (simp_all add: parses_def status_of_def)
  with False show ?thesis by (simp add: has_status_def other_status_def)
next
  case True
  show ?thesis
  proof (cases "has_status [''passed''] f")
    case p: True
    then have "\<not> has_status [''failed'', ''broken''] f" "\<not> other_status f"
      by (auto simp: has_status_def other_status_def)
    with p True show ?thesis by simp
  next
    case np: False
    show ?thesis
    proof (cases "has_status [''failed'', ''broken''] f")
      case q: True
      then have "\<not> other_status f" by (auto simp: has_status_def other_status_def)
      with np q True show ?thesis by simp
    next
      case nq: False
      with np True have "other_status f" by (auto simp: has_status_def other_status_def)
      with np nq True show ?thesis by simp
    qed
  qed
qed

lemma length_filter_Cons_int:
  "int (length (filter P (x # xs))) = (if P x then 1 else 0) + int (length (filter P xs))"
  by simp

lemma status_partition:
  "int (length (filter (has_status [''passed'']) fs))
   + int (length (filter (has_status [''failed'', ''broken'']) fs))
   + int (length (filter other_status fs))
   = int (length (filter parses fs))"
proof (induction fs)
  case Nil
  then show ?case by simp
next
  case (Cons f fs)
  define a b c d :: int where "a = (if has_status [''passed''] f then 1 else 0)"
    and "b = (if has_status [''failed'', ''broken''] f then 1 else 0)"
    and "c = (if other_status f then 1 else 0)"
    and "d = (if parses f then 1 else 0)"
  have e: "a + b + c = d" unfolding a_def b_def c_def d_def by (rule status_classes)
  have "int (length (filter (has_status [''passed'']) (f # fs)))
   + int (length (filter (has_status [''failed'', ''broken'']) (f # fs)))
   + int (length (filter other_status (f # fs)))
   = (a + int (length (filter (has_status [''passed'']) fs)))
     + (b + int (length (filter (has_status [''failed'', ''broken'']) fs)))
     + (c + int (length (filter other_status fs)))"
    unfolding a_def b_def c_def by (simp only: length_filter_Cons_int)
  also have "\<dots> = d + int (length (filter parses fs))"
    using e Cons.IH by linarith
  also have "\<dots> = int (length (filter parses (f # fs)))"
    unfolding d_def by (simp only: length_filter_Cons_int)
  finally show ?case .
qed

text \<open>
  What the loop computes. \<open>n_total\<close> counts the files that \<open>json.load\<close> could
  read, whether they hold an object or not; the two other counters go by status; a file
  that cannot be opened or parsed changes nothing.
\<close>

lemma aggregate_counts_parsed:
  "n_total (aggregate files) = int (length (filter parses files))
   \<and> n_passed (aggregate files) = int (length (filter (has_status [''passed'']) files))
   \<and> n_failed (aggregate files) = int (length (filter (has_status [''failed'', ''broken'']) files))
   \<and> n_passed (aggregate files) + n_failed (aggregate files) + int (length (filter other_status files))
       = n_total (aggregate files)
   \<and> aggregate (filter parses files) = aggregate files"
proof -
  have t: "n_total (aggregate files) = int (length (filter parses files))"
    by (simp add: aggregate_def foldl_count_total)
  have p: "n_passed (aggregate files) = int (length (filter (has_status [''passed'']) files))"
    by (simp add: aggregate_def foldl_count_passed)
  have f: "n_failed (aggregate files) = int (length (filter (has_status [''failed'', ''broken'']) files))"
    by (simp add: aggregate_def foldl_count_failed)
  have s: "aggregate (filter parses files) = aggregate files"
    by (simp add: aggregate_def foldl_count_skip)
  have sum: "n_passed (aggregate files) + n_failed (aggregate files) + int (length (filter other_status files))
       = n_total (aggregate files)"
    unfolding t p f by (rule status_partition)
  from t p f sum s show ?thesis by blast
qed

text \<open>
  C6 fails on the code. A result file that holds JSON which is not an object (here an
  empty array and \<open>null\<close>) is malformed as a result file, and the loop skips it: but
  \<open>total += 1\<close> has already run when \<open>data.get\<close> raises, so the skipped file is
  counted in the total. In this directory of four well-formed result files (one passed,
  one failed, one broken, one skipped), one unreadable file, one file that is not JSON
  and the two files above, the total is 6, not 4, and passed + failed + other statuses
  is 4.
\<close>

theorem aggregate_counts_non_object:
  "aggregate mixed_directory = \<lparr>n_total = 6, n_passed = 1, n_failed = 2\<rparr>
   \<and> length (filter well_formed mixed_directory) = 4
   \<and> n_total (aggregate [Parsed (JArray [])]) = 1
   \<and> \<not> well_formed (Parsed (JArray []))"
  by (simp add: aggregate_def mixed_directory_def dict_get_def well_formed_def)

subsection \<open>Discarding the previous artifacts\<close>

lemma under_self: "under d d"
  by (simp add: under_def)

lemma remove_if_exists:
  assumes "absent_or_dir fs d"
  shows "(if path_exists fs d then rmtree fs d else Inr fs) = Inr (without d fs)"
proof (cases "fs d = Some Dir")
  case True
  then show ?thesis by (simp add: path_exists_def rmtree_def without_def)
next
  case False
  with assms have none: "\<forall>p. under d p \<longrightarrow> fs p = None" by (simp add: absent_or_dir_def)
  then have "fs d = None" using under_self by blast
  moreover have "without d fs = fs" using none by (auto simp: without_def)
  ultimately show ?thesis by (simp add: path_exists_def)
qed

lemma absent_or_dir_without:
  "absent_or_dir fs d' \<Longrightarrow> \<not> under d d' \<Longrightarrow> absent_or_dir (without d fs) d'"
  by (auto simp: absent_or_dir_def without_def)

lemma makedirs_top:
  assumes "dirname name = []" and "fs name = None"
  shows "makedirs fs name = Inr (fs(name \<mapsto> Dir))"
  using assms by (subst makedirs.simps) (simp add: and_then_def mkdir_def parent_check_def)

lemma makedirs_child:
  assumes "fs (dirname name) = Some Dir" and "fs name = None"
  shows "makedirs fs name = Inr (fs(name \<mapsto> Dir))"
  using assms by (subst makedirs.simps) (simp add: and_then_def mkdir_def parent_check_def path_exists_def)

lemma dirname_results: "dirname ALLURE_RESULTS_DIR = []"
  by (simp add: dirname_def ALLURE_RESULTS_DIR_def)

lemma dirname_history: "dirname (ALLURE_RESULTS_DIR @ ''/history'') = ALLURE_RESULTS_DIR"
  by (simp add: dirname_def ALLURE_RESULTS_DIR_def)


lemma report_not_under_results: "\<not> under ALLURE_RESULTS_DIR ALLURE_REPORT_DIR"
  by (simp add: under_def ALLURE_REPORT_DIR_def ALLURE_RESULTS_DIR_def)

lemma history_under_results: "under ALLURE_RESULTS_DIR (ALLURE_RESULTS_DIR @ ''/history'')"
  by (simp add: under_def)

lemma history_neq_results: "ALLURE_RESULTS_DIR @ ''/history'' \<noteq> ALLURE_RESULTS_DIR"
  by simp


lemma clean_previous_cleaned:
  assumes "absent_or_dir fs ALLURE_RESULTS_DIR" and "absent_or_dir fs ALLURE_REPORT_DIR"
  shows "clean_previous fs = Inr (cleaned fs)"
proof -
  let ?fs1 = "without ALLURE_RESULTS_DIR fs"
  let ?fs2 = "without ALLURE_REPORT_DIR ?fs1"
  let ?fs3 = "?fs2(ALLURE_RESULTS_DIR \<mapsto> Dir)"
  let ?fs4 = "?fs3(ALLURE_RESULTS_DIR @ ''/history'' \<mapsto> Dir)"
  have s1: "(if path_exists fs ALLURE_RESULTS_DIR then rmtree fs ALLURE_RESULTS_DIR else Inr fs) = Inr ?fs1"
    by (rule remove_if_exists [OF assms(1)])
  have "absent_or_dir ?fs1 ALLURE_REPORT_DIR"
    by (rule absent_or_dir_without [OF assms(2) report_not_under_results])
  then have s2: "(if path_exists ?fs1 ALLURE_REPORT_DIR then rmtree ?fs1 ALLURE_REPORT_DIR else Inr ?fs1) = Inr ?fs2"
    by (rule remove_if_exists)
  have "?fs2 ALLURE_RESULTS_DIR = None"
    by (simp add: without_def under_self)
  then have s3: "makedirs ?fs2 ALLURE_RESULTS_DIR = Inr ?fs3"
    by (rule makedirs_top [OF dirname_results])
  have "?fs3 (ALLURE_RESULTS_DIR @ ''/history'') = None"
    using history_under_results by (simp add: without_def)
  moreover have "?fs3 (dirname (ALLURE_RESULTS_DIR @ ''/history'')) = Some Dir"
    by (simp add: dirname_history)
  ultimately have s4: "makedirs ?fs3 (ALLURE_RESULTS_DIR @ ''/history'') = Inr ?fs4"
    by (intro makedirs_child)
  have "clean_previous fs = Inr ?fs4"
    unfolding clean_previous_def by (simp only: s1 s2 s3 s4 and_then_def sum.case)
  moreover have "?fs4 = cleaned fs"
    by (rule ext) (auto simp: cleaned_def without_def)
  ultimately show ?thesis by simp
qed

lemma absent_or_dir_cleaned:
  "absent_or_dir (cleaned fs) ALLURE_RESULTS_DIR \<and> absent_or_dir (cleaned fs) ALLURE_REPORT_DIR"
proof
  show "absent_or_dir (cleaned fs) ALLURE_RESULTS_DIR"
    by (simp add: absent_or_dir_def cleaned_def)
  have "\<And>p. under ALLURE_REPORT_DIR p \<Longrightarrow> p \<noteq> ALLURE_RESULTS_DIR \<and> p \<noteq> ALLURE_RESULTS_DIR @ ''/history''"
    by (auto simp: under_def ALLURE_REPORT_DIR_def ALLURE_RESULTS_DIR_def)
  then show "absent_or_dir (cleaned fs) ALLURE_REPORT_DIR"
    by (auto simp: absent_or_dir_def cleaned_def)
qed

lemma cleaned_idem: "cleaned (cleaned fs) = cleaned fs"
  by (rule ext) (simp add: cleaned_def)

text \<open>
  The first step of a run on its own: it deletes the whole prior results directory and
  the whole prior report directory and makes the results directory anew.
\<close>

lemma clean_previous_replaces:
  assumes "absent_or_dir fs ALLURE_RESULTS_DIR" and "absent_or_dir fs ALLURE_REPORT_DIR"
  shows "\<exists>fs'. clean_previous fs = Inr fs'
           \<and> (\<forall>p. fs' p = (if p = ALLURE_RESULTS_DIR \<or> p = ALLURE_RESULTS_DIR @ ''/history'' then Some Dir
                          else if under ALLURE_RESULTS_DIR p \<or> under ALLURE_REPORT_DIR p then None
                          else fs p))
           \<and> clean_previous fs' = Inr fs'"
proof -
  have 1: "clean_previous fs = Inr (cleaned fs)"
    by (rule clean_previous_cleaned [OF assms])
  have "clean_previous (cleaned fs) = Inr (cleaned (cleaned fs))"
    using absent_or_dir_cleaned [of fs] by (intro clean_previous_cleaned) simp_all
  then have 2: "clean_previous (cleaned fs) = Inr (cleaned fs)"
    by (simp only: cleaned_idem)
  have 3: "\<forall>p. cleaned fs p = (if p = ALLURE_RESULTS_DIR \<or> p = ALLURE_RESULTS_DIR @ ''/history'' then Some Dir
                          else if under ALLURE_RESULTS_DIR p \<or> under ALLURE_REPORT_DIR p then None
                          else fs p)"
    by (simp add: cleaned_def)
  from 1 2 3 show ?thesis by blast
qed






















subsection \<open>Exit codes\<close>

lemma validation_loop_all:
  "validation_loop all_passed outcomes = (all_passed \<and> list_all (\<lambda>v. v = Returned True) outcomes)"
  by (induction all_passed outcomes rule: validation_loop.induct) auto

lemma generated_returncode:
  "generated (w\<lparr>pytest_returncode := r\<rparr>) fs = generated w fs"
  by (simp add: generated_def)

lemma allure_commands_returncode:
  "allure_commands (w\<lparr>pytest_returncode := r\<rparr>) = allure_commands w"
  by (simp add: allure_commands_def)

lemma try_allure_returncode:
  "try_allure (w\<lparr>pytest_returncode := r\<rparr>) fs cmds = try_allure w fs cmds"
  by (induction cmds) (simp_all add: generated_returncode split: cmd_outcome.split)

lemma generate_report_returncode:
  "generate_report (w\<lparr>pytest_returncode := r\<rparr>) fs t p f = generate_report w fs t p f"
  by (auto simp: generate_report_def try_allure_returncode allure_commands_returncode
      generated_returncode split: prod.split bool.split)

lemma pipeline_main_returncode:
  "pipeline_main (w\<lparr>pytest_returncode := r\<rparr>) fs = pipeline_main w fs"
  by (simp add: pipeline_main_def generate_report_returncode cong: if_cong)

text \<open>
  C4 (as amended). The validator's entry point exits with 0 exactly when its report was
  written and every validation returned true, and with 1 otherwise. Failing tests alone
  do not make a run failed: the regression-suite validation passes whenever the command
  succeeded or its output mentions collected tests. The runner never reads the return
  code of the test command, so its exit code does not depend on it.
\<close>

theorem exit_code_by_validations:
  "validation_main outcomes writable
     = (if writable \<and> list_all (\<lambda>v. v = Returned True) outcomes then 0 else 1)
   \<and> validate_regression_suite (Completed returncode stdout stderr)
     = (returncode = 0 \<or> py_in ''collected'' stdout)
   \<and> exit_code (pipeline_main (w\<lparr>pytest_returncode := r\<rparr>) fs) = exit_code (pipeline_main w fs)"
  by (simp add: validation_main_def generate_validation_report_def validation_loop_all
      validate_regression_suite_def run_pytest_command_def pipeline_main_returncode)

text \<open>
  C4 as stated fails: in a run where the test command returns 1 and one test has failed,
  the runner ends with exit code 0.
\<close>

theorem failing_tests_exit_zero_counterexample:
  "pytest_returncode world_with_allure = 1
   \<and> n_failed (aggregate (result_files world_with_allure)) = 1
   \<and> exit_code (pipeline_main world_with_allure Map.empty) = 0"
  by code_simp

subsection \<open>The fallback report without tests\<close>

text \<open>
  C1 fails on the code. With total = 0 the pass-rate field is \<open>passed/total*100\<close> with
  no guard: building the page raises \<open>ZeroDivisionError\<close>, and
  \<open>create_basic_html_report\<close> raises it after making the report directory, writing no
  page and no "no data" field.
\<close>

theorem html_report_zero_total:
  "html_content 0 passed failed executor environment = Inl ZeroDivisionError
   \<and> create_basic_html_report Map.empty ALLURE_REPORT_DIR 0 passed failed EXECUTOR_NAME ENVIRONMENT
       = Inl ZeroDivisionError"
proof -
  have "dirname ALLURE_REPORT_DIR = []" by (simp add: dirname_def ALLURE_REPORT_DIR_def)
  then have "makedirs Map.empty ALLURE_REPORT_DIR = Inr [ALLURE_REPORT_DIR \<mapsto> Dir]"
    by (intro makedirs_top) simp_all
  then show ?thesis
    by (simp add: create_basic_html_report_def html_content_def true_div_def and_then_def)
qed

subsection \<open>A failing report step\<close>

text \<open>
  C3 fails on the code. The two runs differ only in whether the Allure tool can be
  started. With it the runner exits with 0. Without it the fallback page is written and
  the first widget file cannot be opened, because nothing made \<open>allure-report/widgets\<close>:
  \<open>FileNotFoundError\<close> is not caught and the exit code is 1. With no result files at all
  the fallback itself raises \<open>ZeroDivisionError\<close> inside the handler, and the exit code
  is 1 again.
\<close>

theorem report_failure_changes_exit_code:
  "exit_code (pipeline_main world_with_allure Map.empty) = 0
   \<and> uncaught (pipeline_main world_without_allure Map.empty) = Some FileNotFoundError
   \<and> exit_code (pipeline_main world_without_allure Map.empty) = 1
   \<and> uncaught (pipeline_main (world_without_allure\<lparr>result_files := []\<rparr>) Map.empty) = Some ZeroDivisionError
   \<and> exit_code (pipeline_main (world_without_allure\<lparr>result_files := []\<rparr>) Map.empty) = 1"
  by code_simp

subsection \<open>Failures that reach the exit code\<close>

lemma regression_count:
  "map_of (collection_results runs) ''regression''
     = Some (case run_pytest_command (runs ''-m regression'') of
               (success, stdout, stderr) \<Rightarrow> collected_count success stdout)"
  by (simp add: collection_results_def test_types_def)

lemma failed_collection_exit:
  assumes "\<not> validate_test_collection runs"
  shows "validation_main (Returned (validate_test_collection runs) # others) writable = 1"
  using assms
  by (simp add: validation_main_def generate_validation_report_def validation_loop_all)

text \<open>
  C7 (as amended). If the external command exceeds the timeout, the result of Execute is
  the Timeout failure: unsuccessful, no output (the partial output is dropped) and the
  indication "Command timed out". If the command cannot be started, the result is the
  ExecutionError failure: unsuccessful, no output, the exception's message. Both are
  surfaced as the overall run outcome: when they strike the collection of the
  regression tests, the collection validation fails and the validator exits with 1.
  They are not the only kinds surfaced: a regression collection that succeeds with
  return code 0 but prints no recognizable count token (a parse failure) fails the
  validation and the run in the same way.
\<close>

theorem run_pytest_command_failures:
  "run_pytest_command (TimeoutExpired partial_out partial_err) = (False, '''', ''Command timed out'')
   \<and> run_pytest_command (Raised msg) = (False, '''', msg)
   \<and> ((\<exists>po pe. runs ''-m regression'' = TimeoutExpired po pe)
        \<or> (\<exists>m. runs ''-m regression'' = Raised m)
        \<or> (\<exists>out err. runs ''-m regression'' = Completed 0 out err \<and> no_count_token out)
       \<longrightarrow> \<not> validate_test_collection runs
           \<and> validation_main (Returned (validate_test_collection runs) # others) writable = 1)"
proof -
  have surfaced: "\<not> validate_test_collection runs"
    if "(\<exists>po pe. runs ''-m regression'' = TimeoutExpired po pe)
        \<or> (\<exists>m. runs ''-m regression'' = Raised m)
        \<or> (\<exists>out err. runs ''-m regression'' = Completed 0 out err \<and> no_count_token out)"
    using that
  proof (elim disjE exE conjE)
    fix po pe assume "runs ''-m regression'' = TimeoutExpired po pe"
    then show ?thesis
      by (simp add: validate_test_collection_def regression_count run_pytest_command_def
          collected_count_def)
  next
    fix m assume "runs ''-m regression'' = Raised m"
    then show ?thesis
      by (simp add: validate_test_collection_def regression_count run_pytest_command_def
          collected_count_def)
  next
    fix out err assume "runs ''-m regression'' = Completed 0 out err" and "no_count_token out"
    then show ?thesis
      using unparsed_count_is_zero [of out]
      by (simp add: validate_test_collection_def regression_count run_pytest_command_def)
  qed
  show ?thesis
    using surfaced failed_collection_exit [of runs others writable]
    by (auto simp: run_pytest_command_def)
qed

theorem run_pytest_command_failures_witness:
  "run_pytest_command (TimeoutExpired ''collecting ...'' '''') = (False, '''', ''Command timed out'')
   \<and> run_pytest_command (Raised ''[Errno 2] No such file or directory'') =
       (False, '''', ''[Errno 2] No such file or directory'')
   \<and> \<not> validate_test_collection reworded_summary
   \<and> validation_main [Returned (validate_test_collection reworded_summary), Returned True] True = 1"
proof -
  have "no_count_token ''collected 87 tests in 0.12s''"
    by (simp add: no_count_token_def mentions_count_def py_split_sep_def first_token_def
        count_token_def int_literal_def is_space_def is_digit_def)
  then have "\<exists>out err. reworded_summary ''-m regression'' = Completed 0 out err \<and> no_count_token out"
    by (simp add: reworded_summary_def)
  with run_pytest_command_failures
    [of "''collecting ...''" "''''" "''[Errno 2] No such file or directory''" reworded_summary
        "[Returned True]" True]
  show ?thesis by blast
qed

text \<open>
  C7 as stated fails in its last part: here every collection command succeeds with return
  code 0, so there is neither a Timeout nor an ExecutionError, but the summary line is
  worded "collected 87 tests", its count is not parsed, 0 is stored for the regression
  tests, the collection validation fails and the validator exits with 1 although the four
  other validations pass.
\<close>

theorem parse_failure_surfaces_counterexample:
  "run_pytest_command (reworded_summary ''-m regression'') = (True, ''collected 87 tests in 0.12s'', '''')
   \<and> validation_main
        [Returned (validate_test_collection reworded_summary),
         Returned True, Returned True, Returned True, Returned True] True = 1"
  by (simp add: validation_main_def generate_validation_report_def validate_test_collection_def
      collection_results_def test_types_def reworded_summary_def run_pytest_command_def
      collected_count_def py_split_sep_def parse_count_def py_split_def is_space_def
      py_int_def digits_to_int_def is_digit_def)

end
